theory Spec2Isabelle
  imports Main "HOL-Library.Sublist"
begin

section \<open>Data model of the orchestrator (src/App.tsx)\<close>

text \<open>
  The string unions of the source are datatypes: \<open>FileType\<close> is \<open>'input' | 'results'\<close>,
  \<open>FileStatus\<close> is \<open>'waiting' | 'loading' | 'valid' | 'invalid'\<close> (the four cases of the
  switch in src/components/Dropzone.tsx) and the severity of a log entry is
  \<open>'info' | 'error' | 'success'\<close>.
\<close>

datatype FileType = Input | Results

datatype FileStatus = Waiting | Loading | Valid | Invalid

datatype LogType = Info | Error | Success

record LogEntry =
  message :: string
  type :: LogType
  timestamp :: string

text \<open>A browser \<open>File\<close>: the handlers read its \<open>name\<close> only; the content is opaque.\<close>

record File =
  name :: string
  bytes :: "nat list"

text \<open>
  \<open>jsonData\<close> and the cache slots have the TypeScript type \<open>any\<close>: a JavaScript value.
  The code observes one thing about it, its truthiness (line 80).
\<close>

datatype jsval =
    JUndefined
  | JNull
  | JBool bool
  | JNaN
  | JNum int
  | JStr string
  | JArr "jsval list"
  | JObj "(string \<times> jsval) list"

fun truthy :: "jsval \<Rightarrow> bool" where
  "truthy JUndefined = False"
| "truthy JNull = False"
| "truthy (JBool b) = b"
| "truthy JNaN = False"
| "truthy (JNum n) = (n \<noteq> 0)"
| "truthy (JStr s) = (s \<noteq> [])"
| "truthy (JArr xs) = True"
| "truthy (JObj kvs) = True"

record ValidationResult =
  isValid :: bool
  errors :: "string list"

record OutputData =
  scouted :: "jsval list"
  retrieved :: "jsval list"
  contacted :: "jsval list"

datatype OutputKey = KScouted | KRetrieved | KContacted

text \<open>\<open>outputData[key]\<close>\<close>

fun category :: "OutputKey \<Rightarrow> OutputData \<Rightarrow> jsval list" where
  "category KScouted od = scouted od"
| "category KRetrieved od = retrieved od"
| "category KContacted od = contacted od"

text \<open>
  A caught value: \<open>error instanceof Error ? error.message : String(error)\<close>.
  \<open>NonError s\<close> is a thrown value that is not an \<open>Error\<close>, with \<open>s\<close> its \<open>String(...)\<close>.
\<close>

datatype thrown = ErrorObject string | NonError string

fun errorMessage :: "thrown \<Rightarrow> string" where
  "errorMessage (ErrorObject m) = m"
| "errorMessage (NonError s) = s"

text \<open>
  \<open>transformData\<close> lives in ./services/transformer and is awaited: what it resolves to,
  or what it throws, is chosen by the environment. For an ingestion call it resolves to
  \<open>{ jsonData, validation }\<close>, for the processing call to \<open>{ output }\<close>, where a falsy
  \<open>output\<close> is \<open>None\<close>.
\<close>

datatype ingest_result = IngestReturned jsval ValidationResult | IngestThrew thrown

datatype process_result = ProcessReturned "OutputData option" | ProcessThrew thrown

text \<open>
  The state of the component: the seven \<open>useState\<close> cells and the \<open>useRef\<close> cache.
  \<open>null\<close> in \<open>files\<close>, \<open>fileErrors\<close> and \<open>outputData\<close> is \<open>None\<close>; the cache holds
  a JavaScript value, \<open>JNull\<close> when cleared.
\<close>

record AppState =
  files :: "FileType \<Rightarrow> File option"
  fileStatus :: "FileType \<Rightarrow> FileStatus"
  fileErrors :: "FileType \<Rightarrow> string option"
  logs :: "LogEntry list"
  isProcessing :: bool
  outputData :: "OutputData option"
  resetKey :: nat
  fileDataCache :: "FileType \<Rightarrow> jsval"

definition initialState :: AppState where
  "initialState =
     \<lparr> files = (\<lambda>t. None),
       fileStatus = (\<lambda>t. Waiting),
       fileErrors = (\<lambda>t. None),
       logs = [],
       isProcessing = False,
       outputData = None,
       resetKey = 0,
       fileDataCache = (\<lambda>t. JNull) \<rparr>"

section \<open>The handlers\<close>

text \<open>
  \<open>addLog\<close> (lines 47-49) appends one entry; \<open>ts\<close> is what \<open>new Date().toISOString()\<close>
  reads at the call. A handler segment that logs several times takes \<open>now :: nat \<Rightarrow> string\<close>,
  the reading of its k-th call.
\<close>

definition addLog :: "string \<Rightarrow> LogType \<Rightarrow> string \<Rightarrow> AppState \<Rightarrow> AppState" where
  "addLog m ty ts s = s\<lparr> logs := logs s @ [\<lparr> message = m, type = ty, timestamp = ts \<rparr>] \<rparr>"

text \<open>\<open>validation.errors.forEach(err => addLog(err, 'error'))\<close>, from clock index \<open>k\<close>.\<close>

fun logEach :: "string list \<Rightarrow> (nat \<Rightarrow> string) \<Rightarrow> nat \<Rightarrow> AppState \<Rightarrow> AppState" where
  "logEach [] now k s = s"
| "logEach (e # es) now k s = logEach es now (Suc k) (addLog e Error (now k) s)"

text \<open>\<open>handleFileChange\<close>, lines 52-55: the synchronous part, up to the \<open>await\<close>.\<close>

definition handleFileChange_begin :: "File \<Rightarrow> FileType \<Rightarrow> AppState \<Rightarrow> AppState" where
  "handleFileChange_begin file ty s =
     s\<lparr> files := (files s)(ty := Some file),
        outputData := None,
        fileStatus := (fileStatus s)(ty := Loading),
        fileErrors := (fileErrors s)(ty := None) \<rparr>"

text \<open>
  \<open>handleFileChange\<close>, lines 58-76: what runs when \<open>transformData(type, file, addLog)\<close>
  settles. \<open>validation.errors[0]\<close> of an empty array is \<open>undefined\<close>, here \<open>None\<close>.
\<close>

fun handleFileChange_resume ::
  "File \<Rightarrow> FileType \<Rightarrow> ingest_result \<Rightarrow> (nat \<Rightarrow> string) \<Rightarrow> AppState \<Rightarrow> AppState" where
  "handleFileChange_resume file ty (IngestReturned jsonData validation) now s =
     (if isValid validation then
        addLog ([CHR 0x27] @ name file @ [CHR 0x27] @ '' loaded and validated successfully.'')
          Success (now 0)
          (s\<lparr> fileDataCache := (fileDataCache s)(ty := jsonData),
              fileStatus := (fileStatus s)(ty := Valid) \<rparr>)
      else
        (let firstError = (case errors validation of [] \<Rightarrow> None | e # _ \<Rightarrow> Some e) in
         logEach (errors validation) now 0
           (s\<lparr> fileDataCache := (fileDataCache s)(ty := JNull),
               fileStatus := (fileStatus s)(ty := Invalid),
               fileErrors := (fileErrors s)(ty := firstError) \<rparr>)))"
| "handleFileChange_resume file ty (IngestThrew err) now s =
     (let msg = errorMessage err;
          s1 = addLog (''Error processing '' @ name file @ '': '' @ msg) Error (now 0) s
      in s1\<lparr> fileStatus := (fileStatus s1)(ty := Invalid),
             fileErrors := (fileErrors s1)(ty := Some msg),
             fileDataCache := (fileDataCache s1)(ty := JNull) \<rparr>)"

text \<open>\<open>handleRunTransformation\<close>, line 80: the guard reads the cache, not the statuses.\<close>

definition runGuard :: "AppState \<Rightarrow> bool" where
  "runGuard s = (truthy (fileDataCache s Input) \<and> truthy (fileDataCache s Results))"

text \<open>
  \<open>handleRunTransformation\<close>, lines 80-88: the synchronous part, up to the timer. It
  either refuses (one error entry, nothing else) or marks the run as started.
\<close>

definition handleRunTransformation_begin :: "(nat \<Rightarrow> string) \<Rightarrow> AppState \<Rightarrow> AppState" where
  "handleRunTransformation_begin now s =
     (if \<not> runGuard s then
        addLog ''Both Input and Results files must be loaded and valid before running.''
          Error (now 0) s
      else
        addLog ''Starting transformation process...'' Info (now 0)
          (s\<lparr> isProcessing := True, outputData := None, logs := [] \<rparr>))"

text \<open>
  \<open>handleRunTransformation\<close>, lines 93-106: what runs when the processing call settles.
  A falsy \<open>output\<close> throws inside the \<open>try\<close> and is caught like any other error;
  \<open>finally\<close> clears the flag on every path.
\<close>

fun handleRunTransformation_resume ::
  "process_result \<Rightarrow> (nat \<Rightarrow> string) \<Rightarrow> AppState \<Rightarrow> AppState" where
  "handleRunTransformation_resume (ProcessReturned (Some output)) now s =
     (addLog ''Transformation complete. Output files are ready for download.'' Success (now 0)
        (s\<lparr> outputData := Some output \<rparr>))
       \<lparr> isProcessing := False \<rparr>"
| "handleRunTransformation_resume (ProcessReturned None) now s =
     (addLog (''An unexpected error occurred during transformation: '' @
              ''Transformation did not produce any output data.'') Error (now 0) s)
       \<lparr> isProcessing := False \<rparr>"
| "handleRunTransformation_resume (ProcessThrew err) now s =
     (addLog (''An unexpected error occurred during transformation: '' @ errorMessage err)
        Error (now 0) s)
       \<lparr> isProcessing := False \<rparr>"

text \<open>
  \<open>handleDownload\<close>, lines 109-127. The calls it makes on the external encoder
  (\<open>window.XLSX\<close>) and on \<open>window.saveAs\<close> are returned beside the new state; each of
  them may throw, which the environment decides.
\<close>

datatype ext_call = XLSX_encode "jsval list" | SaveAs string

datatype export_result = ExportOk | EncoderThrew thrown | SaveAsThrew thrown

definition handleDownload ::
  "OutputKey \<Rightarrow> string \<Rightarrow> export_result \<Rightarrow> (nat \<Rightarrow> string) \<Rightarrow> AppState
     \<Rightarrow> AppState \<times> ext_call list" where
  "handleDownload key fileName x now s =
     (case outputData s of
        None \<Rightarrow>
          (addLog (''No data available to download for '' @ fileName @ ''.'') Error (now 0) s, [])
      | Some od \<Rightarrow>
          if category key od = [] then
            (addLog (''No data available to download for '' @ fileName @ ''.'') Error (now 0) s, [])
          else
            (let s1 = addLog (''Generating '' @ fileName @ ''...'') Info (now 0) s in
             case x of
               ExportOk \<Rightarrow>
                 (addLog (fileName @ '' downloaded successfully.'') Success (now 1) s1,
                  [XLSX_encode (category key od), SaveAs fileName])
             | EncoderThrew err \<Rightarrow>
                 (addLog (''Failed to generate '' @ fileName @ '': '' @ errorMessage err)
                    Error (now 1) s1,
                  [XLSX_encode (category key od)])
             | SaveAsThrew err \<Rightarrow>
                 (addLog (''Failed to generate '' @ fileName @ '': '' @ errorMessage err)
                    Error (now 1) s1,
                  [XLSX_encode (category key od), SaveAs fileName])))"

text \<open>\<open>handleReset\<close>, lines 129-139.\<close>

definition handleReset :: "AppState \<Rightarrow> AppState" where
  "handleReset s =
     s\<lparr> files := (\<lambda>t. None),
        fileStatus := (\<lambda>t. Waiting),
        fileErrors := (\<lambda>t. None),
        logs := [],
        outputData := None,
        fileDataCache := (\<lambda>t. JNull),
        resetKey := resetKey s + 1 \<rparr>"

text \<open>\<open>canRun\<close>, line 141.\<close>

definition canRun :: "AppState \<Rightarrow> bool" where
  "canRun s = (fileStatus s Input = Valid \<and> fileStatus s Results = Valid)"

section \<open>The running application: handlers interleaving at their awaits\<close>

text \<open>
  An \<open>async\<close> handler runs up to its next \<open>await\<close> and then yields; other handlers and
  completions run before it resumes. A suspended handler is a pending task:
  \<^item> \<open>IngestTask file ty\<close>: \<open>handleFileChange(file, ty)\<close> waiting at line 58;
  \<^item> \<open>RunTimer\<close>: \<open>handleRunTransformation\<close> waiting for the 100 ms timer of line 91;
  \<^item> \<open>RunCall input results\<close>: \<open>handleRunTransformation\<close> waiting at line 94, with the two
    cache values that were passed to the call.
\<close>

datatype task = IngestTask File FileType | RunTimer | RunCall jsval jsval

fun isRunTask :: "task \<Rightarrow> bool" where
  "isRunTask (IngestTask f ty) = False"
| "isRunTask RunTimer = True"
| "isRunTask (RunCall a b) = True"

text \<open>The tasks in which \<open>transformData\<close> is executing, holding the \<open>addLog\<close> callback.\<close>

fun inTransformer :: "task \<Rightarrow> bool" where
  "inTransformer (IngestTask f ty) = True"
| "inTransformer RunTimer = False"
| "inTransformer (RunCall a b) = True"

record System =
  app :: AppState
  pending :: "task list"
  calls :: "ext_call list"

definition initialSystem :: System where
  "initialSystem = \<lparr> app = initialState, pending = [], calls = [] \<rparr>"

definition remove_nth :: "nat \<Rightarrow> 'a list \<Rightarrow> 'a list" where
  "remove_nth i xs = take i xs @ drop (Suc i) xs"

text \<open>
  Modelled from the spec: the \<open>Button\<close> component (./components/Button) is not among the
  sources. It is rendered with \<open>disabled={!canRun || isProcessing}\<close> (line 212), and a
  disabled button delivers no click: "running is gated by an explicit processing flag that
  blocks re-entrant invocation while one run is in flight".
\<close>

definition runButtonEnabled :: "AppState \<Rightarrow> bool" where
  "runButtonEnabled s = (\<not> (\<not> canRun s \<or> isProcessing s))"

text \<open>The reset button is rendered under the condition of line 148.\<close>

definition resetButtonShown :: "AppState \<Rightarrow> bool" where
  "resetButtonShown s = (fileStatus s Input \<noteq> Waiting \<or> fileStatus s Results \<noteq> Waiting)"

text \<open>The download buttons are rendered under \<open>outputData &&\<close> (line 222), with these names.\<close>

definition downloadShown :: "AppState \<Rightarrow> bool" where
  "downloadShown s = (outputData s \<noteq> None)"

fun downloadName :: "OutputKey \<Rightarrow> string" where
  "downloadName KScouted = ''1_Scouted_Lands.xlsx''"
| "downloadName KRetrieved = ''2_Retrieved_Data.xlsx''"
| "downloadName KContacted = ''3_Contacted_Data.xlsx''"

text \<open>
  What can happen next: a user action on a rendered control, a pending task resuming
  (named by its position among the pending tasks), or \<open>transformData\<close> calling the
  \<open>addLog\<close> it was given. An event that is not possible in a state leaves it as it is.
\<close>

datatype event =
    SelectFile FileType File
  | IngestDone nat ingest_result "nat \<Rightarrow> string"
  | ClickRun "nat \<Rightarrow> string"
  | TimerFires nat
  | ProcessDone nat process_result "nat \<Rightarrow> string"
  | SinkLog string LogType string
  | ClickDownload OutputKey export_result "nat \<Rightarrow> string"
  | ClickReset

fun step :: "event \<Rightarrow> System \<Rightarrow> System" where
  "step (SelectFile ty file) w =
     w\<lparr> app := handleFileChange_begin file ty (app w),
        pending := pending w @ [IngestTask file ty] \<rparr>"
| "step (IngestDone i r now) w =
     (if i < length (pending w) then
        (case pending w ! i of
           IngestTask file ty \<Rightarrow>
             w\<lparr> app := handleFileChange_resume file ty r now (app w),
                pending := remove_nth i (pending w) \<rparr>
         | RunTimer \<Rightarrow> w
         | RunCall a b \<Rightarrow> w)
      else w)"
| "step (ClickRun now) w =
     (if runButtonEnabled (app w) then
        w\<lparr> app := handleRunTransformation_begin now (app w),
           pending := (if runGuard (app w) then pending w @ [RunTimer] else pending w) \<rparr>
      else w)"
| "step (TimerFires i) w =
     (if i < length (pending w) then
        (case pending w ! i of
           IngestTask file ty \<Rightarrow> w
         | RunTimer \<Rightarrow>
             w\<lparr> pending := (pending w)
                  [i := RunCall (fileDataCache (app w) Input) (fileDataCache (app w) Results)] \<rparr>
         | RunCall a b \<Rightarrow> w)
      else w)"
| "step (ProcessDone i r now) w =
     (if i < length (pending w) then
        (case pending w ! i of
           IngestTask file ty \<Rightarrow> w
         | RunTimer \<Rightarrow> w
         | RunCall a b \<Rightarrow>
             w\<lparr> app := handleRunTransformation_resume r now (app w),
                pending := remove_nth i (pending w) \<rparr>)
      else w)"
| "step (SinkLog m ty ts) w =
     (if list_ex inTransformer (pending w) then w\<lparr> app := addLog m ty ts (app w) \<rparr> else w)"
| "step (ClickDownload key x now) w =
     (if downloadShown (app w) then
        w\<lparr> app := fst (handleDownload key (downloadName key) x now (app w)),
           calls := calls w @ snd (handleDownload key (downloadName key) x now (app w)) \<rparr>
      else w)"
| "step ClickReset w =
     (if resetButtonShown (app w) then w\<lparr> app := handleReset (app w) \<rparr> else w)"

fun exec :: "event list \<Rightarrow> System \<Rightarrow> System" where
  "exec [] w = w"
| "exec (e # es) w = exec es (step e w)"

inductive reachable :: "System \<Rightarrow> bool" where
  reachable_init: "reachable initialSystem"
| reachable_step: "reachable w \<Longrightarrow> reachable (step e w)"

text \<open>The entries that \<open>logEach\<close> appends.\<close>

definition errorEntries :: "string list \<Rightarrow> (nat \<Rightarrow> string) \<Rightarrow> nat \<Rightarrow> LogEntry list" where
  "errorEntries es now k =
     map (\<lambda>(i, e). \<lparr> message = e, type = Error, timestamp = now i \<rparr>) (enumerate k es)"

text \<open>The number of suspended \<open>handleRunTransformation\<close> calls.\<close>

definition runsInFlight :: "task list \<Rightarrow> nat" where
  "runsInFlight ts = length (filter isRunTask ts)"

text \<open>
  The flag tells whether a run is suspended, there is never more than one, and no bundle
  is shown while the flag is set.
\<close>

definition runInv :: "System \<Rightarrow> bool" where
  "runInv w = (runsInFlight (pending w) = (if isProcessing (app w) then 1 else 0)
               \<and> (\<not> isProcessing (app w) \<or> outputData (app w) = None))"

text \<open>
  A processing call that ends in the \<open>catch\<close> of line 101: it threw, or it resolved
  with a falsy \<open>output\<close> (line 99 throws).
\<close>

fun runFailed :: "process_result \<Rightarrow> bool" where
  "runFailed (ProcessReturned (Some output)) = False"
| "runFailed (ProcessReturned None) = True"
| "runFailed (ProcessThrew err) = True"

text \<open>Whether an ingestion call ends in the branch of line 59.\<close>

fun ingestValid :: "ingest_result \<Rightarrow> bool" where
  "ingestValid (IngestReturned jsonData validation) = isValid validation"
| "ingestValid (IngestThrew err) = False"

text \<open>
  An event that does not write slot \<open>ty\<close> in state \<open>w\<close>: no file selection on that slot,
  no completion of an ingestion of that slot, no reset.
\<close>

fun leavesSlot :: "FileType \<Rightarrow> event \<Rightarrow> System \<Rightarrow> bool" where
  "leavesSlot ty (SelectFile ty' file) w = (ty' \<noteq> ty)"
| "leavesSlot ty (IngestDone i r now) w =
     (if i < length (pending w) then
        (case pending w ! i of
           IngestTask file ty' \<Rightarrow> ty' \<noteq> ty
         | RunTimer \<Rightarrow> True
         | RunCall a b \<Rightarrow> True)
      else True)"
| "leavesSlot ty ClickReset w = False"
| "leavesSlot ty (ClickRun now) w = True"
| "leavesSlot ty (TimerFires i) w = True"
| "leavesSlot ty (ProcessDone i r now) w = True"
| "leavesSlot ty (SinkLog m lt ts) w = True"
| "leavesSlot ty (ClickDownload key x now) w = True"

fun undisturbed :: "FileType \<Rightarrow> event list \<Rightarrow> System \<Rightarrow> bool" where
  "undisturbed ty [] w = True"
| "undisturbed ty (e # es) w = (leavesSlot ty e w \<and> undisturbed ty es (step e w))"

text \<open>The two user actions whose handlers call \<open>setLogs([])\<close> (lines 87 and 134).\<close>

fun clearsLog :: "event \<Rightarrow> bool" where
  "clearsLog (ClickRun now) = True"
| "clearsLog ClickReset = True"
| "clearsLog (SelectFile ty file) = False"
| "clearsLog (IngestDone i r now) = False"
| "clearsLog (TimerFires i) = False"
| "clearsLog (ProcessDone i r now) = False"
| "clearsLog (SinkLog m lt ts) = False"
| "clearsLog (ClickDownload key x now) = False"

text \<open>The condition of line 110; \<open>!outputData[key]\<close> is false for every array.\<close>

definition noData :: "OutputKey \<Rightarrow> AppState \<Rightarrow> bool" where
  "noData key s = (case outputData s of None \<Rightarrow> True | Some od \<Rightarrow> category key od = [])"

subsection \<open>A concrete session\<close>

definition inputFile :: File where
  "inputFile = \<lparr> name = ''Corrected_Input_Piemonte.xlsx'', bytes = [80, 75] \<rparr>"

definition resultsFile :: File where
  "resultsFile = \<lparr> name = ''Campaign_Results.xlsx'', bytes = [80, 75, 3] \<rparr>"

definition inputRows :: jsval where
  "inputRows = JArr [JObj [(''id'', JStr ''A1'')], JObj [(''id'', JStr ''A2'')]]"

definition resultsRows :: jsval where
  "resultsRows = JArr [JObj [(''id'', JStr ''A1''), (''status'', JStr ''contacted'')]]"

definition passed :: ValidationResult where
  "passed = \<lparr> isValid = True, errors = [] \<rparr>"

definition failed :: ValidationResult where
  "failed = \<lparr> isValid = False, errors = [''missing required column: id'', ''Row 2: empty key''] \<rparr>"

definition clock :: "nat \<Rightarrow> string" where
  "clock k = ''2024-01-01T00:00:00.000Z''"

definition sampleOutput :: OutputData where
  "sampleOutput = \<lparr> scouted = [JObj [(''id'', JStr ''A2'')]], retrieved = [],
              contacted = [JObj [(''id'', JStr ''A1'')]] \<rparr>"

text \<open>Both files are selected and validated, one after the other.\<close>

definition loadBoth :: "event list" where
  "loadBoth =
     [SelectFile Input inputFile, IngestDone 0 (IngestReturned inputRows passed) clock,
      SelectFile Results resultsFile, IngestDone 0 (IngestReturned resultsRows passed) clock]"

text \<open>A run that succeeds, and a run whose processing call throws.\<close>

definition runOk :: "event list" where
  "runOk = [ClickRun clock, TimerFires 0, ProcessDone 0 (ProcessReturned (Some sampleOutput)) clock]"

definition runBad :: "event list" where
  "runBad = [ClickRun clock, TimerFires 0, ProcessDone 0 (ProcessThrew (ErrorObject ''empty input'')) clock]"

subsection \<open>Sessions without overlap\<close>

text \<open>
  The calls that \<open>transformData\<close> makes on the \<open>addLog\<close> it was given, as events.
\<close>

fun sinkEvents :: "(string \<times> LogType \<times> string) list \<Rightarrow> event list" where
  "sinkEvents [] = []"
| "sinkEvents ((m, lt, ts) # rest) = SinkLog m lt ts # sinkEvents rest"

text \<open>
  One file selection from start to completion, and one run from the click to the end of
  its processing call, with nothing else in between.
\<close>

definition ingestOp ::
  "FileType \<Rightarrow> File \<Rightarrow> (string \<times> LogType \<times> string) list \<Rightarrow> ingest_result \<Rightarrow> (nat \<Rightarrow> string)
     \<Rightarrow> event list" where
  "ingestOp ty f sink r now = SelectFile ty f # sinkEvents sink @ [IngestDone 0 r now]"

definition runOp ::
  "(nat \<Rightarrow> string) \<Rightarrow> (string \<times> LogType \<times> string) list \<Rightarrow> process_result \<Rightarrow> (nat \<Rightarrow> string)
     \<Rightarrow> event list" where
  "runOp now sink r now' = ClickRun now # TimerFires 0 # sinkEvents sink @ [ProcessDone 0 r now']"

text \<open>
  The states of the sessions in which every handler has completed before the next user
  action: no file selection and no reset while an ingestion or a run is suspended.
\<close>

inductive sequential :: "System \<Rightarrow> bool" where
  sequential_init: "sequential initialSystem"
| sequential_ingest: "sequential w \<Longrightarrow> sequential (exec (ingestOp ty f sink r now) w)"
| sequential_run: "sequential w \<Longrightarrow> sequential (exec (runOp now sink r now') w)"
| sequential_download: "sequential w \<Longrightarrow> sequential (step (ClickDownload key x now) w)"
| sequential_reset: "sequential w \<Longrightarrow> sequential (step ClickReset w)"


section \<open>Reconciler and Classifier\<close>

text \<open>
  Modelled from the spec: the records of section 3. \<open>transformData\<close> (./services/transformer),
  which holds the Reconciler and the Classifier, is not among the sources. An
  InputRecord and a ResultRecord are a normalized key and the other fields of the row;
  a ReconciliationOutcome is \<open>{ key, input, results, multiplicity }\<close>; the OutputBundle is
  three sequences of records, each record merging the Input fields with the Results fields.
\<close>

record InputRecord =
  inputKey :: string
  inputFields :: "(string \<times> jsval) list"

record ResultRecord =
  resultKey :: string
  resultFields :: "(string \<times> jsval) list"

record Multiplicity =
  inputCount :: nat
  resultsCount :: nat

record ReconciliationOutcome =
  key :: string
  input :: "InputRecord option"
  results :: "ResultRecord option"
  multiplicity :: Multiplicity

record OutputRecord =
  recordKey :: string
  fromInput :: "(string \<times> jsval) list"
  fromResults :: "(string \<times> jsval) list"

record OutputBundle =
  scoutedSeq :: "OutputRecord list"
  retrievedSeq :: "OutputRecord list"
  contactedSeq :: "OutputRecord list"

datatype Category = Scouted | Retrieved | Contacted

text \<open>
  Modelled from the spec: the keys of a sequence "in the order their key first appears",
  one per distinct key.
\<close>

fun firstKeys :: "string list \<Rightarrow> string list" where
  "firstKeys [] = []"
| "firstKeys (k # ks) = k # removeAll k (firstKeys ks)"

text \<open>
  Modelled from the spec: \<open>reconcile\<close> of section 4.3. "For every key present in inputs,
  look up a matching ResultRecord; if found, outcome carries both; if not, outcome carries
  only the input side." Keys of Results that are absent from Input give no outcome.
\<close>

definition reconcile :: "InputRecord list \<Rightarrow> ResultRecord list \<Rightarrow> ReconciliationOutcome list" where
  "reconcile inputs rs =
     map (\<lambda>k. \<lparr> key = k,
                 input = find (\<lambda>i. inputKey i = k) inputs,
                 results = find (\<lambda>r. resultKey r = k) rs,
                 multiplicity =
                   \<lparr> inputCount = length (filter (\<lambda>i. inputKey i = k) inputs),
                     resultsCount = length (filter (\<lambda>r. resultKey r = k) rs) \<rparr> \<rparr>)
       (firstKeys (map inputKey inputs))"

text \<open>
  Modelled from the spec: the rule set of section 4.4 as "an ordered list of (predicate,
  category) pairs evaluated in a fixed sequence with first-match-wins semantics"
  (section 9). Which Results field signals a retrieval or a contact milestone is left open
  by the spec, so the two predicates are parameters.
\<close>

definition rules ::
  "(ResultRecord \<Rightarrow> bool) \<Rightarrow> (ResultRecord \<Rightarrow> bool)
     \<Rightarrow> ((ReconciliationOutcome \<Rightarrow> bool) \<times> Category) list" where
  "rules retrievalMilestone contactMilestone =
     [(\<lambda>oc. results oc = None, Scouted),
      (\<lambda>oc. case results oc of None \<Rightarrow> False
                | Some r \<Rightarrow> retrievalMilestone r \<and> \<not> contactMilestone r, Retrieved),
      (\<lambda>oc. case results oc of None \<Rightarrow> False | Some r \<Rightarrow> contactMilestone r, Contacted)]"

fun firstMatch ::
  "((ReconciliationOutcome \<Rightarrow> bool) \<times> Category) list \<Rightarrow> ReconciliationOutcome \<Rightarrow> Category option" where
  "firstMatch [] oc = None"
| "firstMatch ((p, c) # rest) oc = (if p oc then Some c else firstMatch rest oc)"

text \<open>
  Modelled from the spec: "a key with inputCount == 0 cannot occur"; an outcome that
  breaks this is a contract violation.
\<close>

definition contractViolation :: "ReconciliationOutcome \<Rightarrow> bool" where
  "contractViolation oc = (input oc = None \<or> inputCount (multiplicity oc) = 0)"

text \<open>
  Modelled from the spec: the category of one outcome, or \<open>None\<close> when it is dropped: on
  a contract violation, or when no rule matches (a Results record with neither milestone).
\<close>

definition categoryOf ::
  "(ResultRecord \<Rightarrow> bool) \<Rightarrow> (ResultRecord \<Rightarrow> bool) \<Rightarrow> ReconciliationOutcome \<Rightarrow> Category option" where
  "categoryOf retrievalMilestone contactMilestone oc =
     (if contractViolation oc then None
      else firstMatch (rules retrievalMilestone contactMilestone) oc)"

text \<open>
  Modelled from the spec: "each produced output record merges fields from the Input record
  with any available Results fields (Results fields absent: left as empty/default)".
\<close>

definition mergeRecord :: "ReconciliationOutcome \<Rightarrow> OutputRecord" where
  "mergeRecord oc =
     \<lparr> recordKey = key oc,
       fromInput = (case input oc of None \<Rightarrow> [] | Some i \<Rightarrow> inputFields i),
       fromResults = (case results oc of None \<Rightarrow> [] | Some r \<Rightarrow> resultFields r) \<rparr>"

text \<open>Modelled from the spec: \<open>classify\<close> of section 4.4; each sequence keeps the order of the outcomes.\<close>

definition classify ::
  "(ResultRecord \<Rightarrow> bool) \<Rightarrow> (ResultRecord \<Rightarrow> bool) \<Rightarrow> ReconciliationOutcome list \<Rightarrow> OutputBundle" where
  "classify retrievalMilestone contactMilestone outcomes =
     \<lparr> scoutedSeq = map mergeRecord
         (filter (\<lambda>oc. categoryOf retrievalMilestone contactMilestone oc = Some Scouted) outcomes),
       retrievedSeq = map mergeRecord
         (filter (\<lambda>oc. categoryOf retrievalMilestone contactMilestone oc = Some Retrieved) outcomes),
       contactedSeq = map mergeRecord
         (filter (\<lambda>oc. categoryOf retrievalMilestone contactMilestone oc = Some Contacted) outcomes) \<rparr>"




text \<open>
  The first scenario of section 8 of the spec, after normalization: Input rows A1 and A2,
  one Results row for A1 with status contacted.
\<close>

definition statusIs :: "string \<Rightarrow> ResultRecord \<Rightarrow> bool" where
  "statusIs v r = (map_of (resultFields r) ''status'' = Some (JStr v))"

definition sampleInputs :: "InputRecord list" where
  "sampleInputs =
     [\<lparr> inputKey = ''A1'', inputFields = [(''area'', JNum 10)] \<rparr>,
      \<lparr> inputKey = ''A2'', inputFields = [(''area'', JNum 5)] \<rparr>]"

definition sampleResults :: "ResultRecord list" where
  "sampleResults = [\<lparr> resultKey = ''A1'', resultFields = [(''status'', JStr ''contacted'')] \<rparr>]"


section \<open>Basic facts\<close>

lemma logEach_eq: "logEach es now k s = s\<lparr> logs := logs s @ errorEntries es now k \<rparr>"
  by (induction es arbitrary: k s) (simp_all add: errorEntries_def addLog_def)

lemma runsInFlight_Nil: "runsInFlight [] = 0"
  by (simp add: runsInFlight_def)

lemma runsInFlight_snoc:
  "runsInFlight (ts @ [t]) = runsInFlight ts + (if isRunTask t then 1 else 0)"
  by (simp add: runsInFlight_def)

lemma runsInFlight_remove_nth:
  assumes "i < length ts"
  shows "runsInFlight (remove_nth i ts) = runsInFlight ts - (if isRunTask (ts ! i) then 1 else 0)"
proof -
  have "ts = take i ts @ ts ! i # drop (Suc i) ts"
    using assms by (rule id_take_nth_drop)
  then have "runsInFlight ts = runsInFlight (take i ts @ ts ! i # drop (Suc i) ts)"
    by simp
  then show ?thesis
    by (simp add: remove_nth_def runsInFlight_def)
qed

lemma runsInFlight_update:
  assumes "i < length ts" and "isRunTask t = isRunTask (ts ! i)"
  shows "runsInFlight (ts[i := t]) = runsInFlight ts"
proof -
  have e1: "ts = take i ts @ ts ! i # drop (Suc i) ts"
    using assms(1) by (rule id_take_nth_drop)
  have e2: "ts[i := t] = take i ts @ t # drop (Suc i) ts"
    using assms(1) by (rule upd_conv_take_nth_drop)
  have "runsInFlight ts = runsInFlight (take i ts @ ts ! i # drop (Suc i) ts)"
    using e1 by simp
  then show ?thesis
    using assms(2) by (simp add: e2 runsInFlight_def)
qed

lemma runsInFlight_pos:
  assumes "i < length ts" and "isRunTask (ts ! i)"
  shows "0 < runsInFlight ts"
proof -
  have "ts ! i \<in> set (filter isRunTask ts)"
    using assms by simp
  then show ?thesis
    unfolding runsInFlight_def by (metis length_pos_if_in_set)
qed

lemma runInv_init: "runInv initialSystem"
  by (simp add: runInv_def runsInFlight_Nil initialSystem_def initialState_def)

lemma isProcessing_resume [simp]:
  "isProcessing (handleFileChange_resume f ty r now s) = isProcessing s"
  by (cases r) (simp_all add: addLog_def logEach_eq Let_def)

lemma outputData_resume [simp]:
  "outputData (handleFileChange_resume f ty r now s) = outputData s"
  by (cases r) (simp_all add: addLog_def logEach_eq Let_def)

lemma runInv_step: "runInv w \<Longrightarrow> runInv (step e w)"
proof (cases e)
  case (SelectFile ty f)
  assume "runInv w" then show ?thesis
    by (simp add: SelectFile runInv_def runsInFlight_snoc handleFileChange_begin_def)
next
  case (IngestDone i r now)
  assume "runInv w" then show ?thesis
    by (auto simp add: IngestDone runInv_def runsInFlight_remove_nth split: task.splits)
next
  case (ClickRun now)
  assume "runInv w" then show ?thesis
    by (auto simp add: ClickRun runInv_def runsInFlight_snoc runButtonEnabled_def
        handleRunTransformation_begin_def addLog_def)
next
  case (TimerFires i)
  assume "runInv w" then show ?thesis
    by (auto simp add: TimerFires runInv_def runsInFlight_update split: task.splits)
next
  case (ProcessDone i r now)
  assume a: "runInv w"
  have p: "isProcessing (handleRunTransformation_resume r now s) = False" for s
    by (cases "(r, now, s)" rule: handleRunTransformation_resume.cases) (auto simp: addLog_def)
  show ?thesis
  proof (cases "i < length (pending w) \<and> (\<exists>a b. pending w ! i = RunCall a b)")
    case True
    then obtain a' b' where t: "i < length (pending w)" "pending w ! i = RunCall a' b'" by blast
    have "0 < runsInFlight (pending w)"
      using t runsInFlight_pos [of i "pending w"] by simp
    with a have "isProcessing (app w)" "runsInFlight (pending w) = 1"
      by (auto simp: runInv_def split: if_splits)
    then show ?thesis using t
      by (simp add: ProcessDone runInv_def runsInFlight_remove_nth p)
  next
    case False
    then show ?thesis using a
      by (auto simp add: ProcessDone split: task.splits)
  qed
next
  case (SinkLog m ty ts)
  assume "runInv w" then show ?thesis
    by (simp add: SinkLog runInv_def addLog_def)
next
  case (ClickDownload okey x now)
  assume "runInv w" then show ?thesis
    by (auto simp add: ClickDownload runInv_def handleDownload_def addLog_def Let_def
        split: option.splits export_result.splits)
next
  case ClickReset
  assume "runInv w" then show ?thesis
    by (simp add: ClickReset runInv_def handleReset_def)
qed

lemma reachable_runInv: "reachable w \<Longrightarrow> runInv w"
  by (induction rule: reachable.induct) (simp_all add: runInv_init runInv_step)

lemma reachable_exec: "reachable w \<Longrightarrow> reachable (exec es w)"
  by (induction es arbitrary: w) (simp_all add: reachable_step)

lemmas scenario_defs = inputFile_def resultsFile_def inputRows_def resultsRows_def passed_def
  failed_def sampleOutput_def loadBoth_def runOk_def runBad_def initialSystem_def initialState_def

lemmas handler_defs = handleFileChange_begin_def handleRunTransformation_begin_def
  handleReset_def handleDownload_def addLog_def runGuard_def canRun_def runButtonEnabled_def
  resetButtonShown_def downloadShown_def remove_nth_def


lemma resume_other_fields:
  "files (handleFileChange_resume f ty r now s) = files s"
  "isProcessing (handleFileChange_resume f ty r now s) = isProcessing s"
  "outputData (handleFileChange_resume f ty r now s) = outputData s"
  "resetKey (handleFileChange_resume f ty r now s) = resetKey s"
  by (cases r; simp add: addLog_def logEach_eq Let_def)+

lemma resume_fileStatus:
  "fileStatus (handleFileChange_resume f ty r now s) =
     (fileStatus s)(ty := if ingestValid r then Valid else Invalid)"
  by (cases r) (simp_all add: addLog_def logEach_eq Let_def)

lemma resume_cache_other:
  "ty' \<noteq> ty \<Longrightarrow> fileDataCache (handleFileChange_resume f ty r now s) ty' = fileDataCache s ty'"
  by (cases r) (simp_all add: addLog_def logEach_eq Let_def)

lemma resume_errors_other:
  "ty' \<noteq> ty \<Longrightarrow> fileErrors (handleFileChange_resume f ty r now s) ty' = fileErrors s ty'"
  by (cases r) (simp_all add: addLog_def logEach_eq Let_def)

lemma run_resume_fields:
  "fileStatus (handleRunTransformation_resume r now s) = fileStatus s"
  "fileDataCache (handleRunTransformation_resume r now s) = fileDataCache s"
  "files (handleRunTransformation_resume r now s) = files s"
  "fileErrors (handleRunTransformation_resume r now s) = fileErrors s"
  "isProcessing (handleRunTransformation_resume r now s) = False"
  by (cases "(r, now, s)" rule: handleRunTransformation_resume.cases; simp add: addLog_def)+

lemma run_resume_output:
  "outputData (handleRunTransformation_resume r now s) =
     (case r of ProcessReturned (Some output) \<Rightarrow> Some output | _ \<Rightarrow> outputData s)"
  by (cases "(r, now, s)" rule: handleRunTransformation_resume.cases; simp add: addLog_def)

lemma run_resume_failed:
  "runFailed r \<Longrightarrow> outputData (handleRunTransformation_resume r now s) = outputData s"
  by (cases "(r, now, s)" rule: handleRunTransformation_resume.cases; simp add: addLog_def)

lemma download_fields:
  "fileStatus (fst (handleDownload okey fn x now s)) = fileStatus s"
  "fileDataCache (fst (handleDownload okey fn x now s)) = fileDataCache s"
  "outputData (fst (handleDownload okey fn x now s)) = outputData s"
  "isProcessing (fst (handleDownload okey fn x now s)) = isProcessing s"
  by (simp_all add: handleDownload_def addLog_def Let_def split: option.splits export_result.splits)

lemma download_logs:
  "prefix (logs s) (logs (fst (handleDownload okey fn x now s)))"
  by (simp add: handleDownload_def addLog_def Let_def split: option.splits export_result.splits)

section \<open>Run atomicity\<close>

text \<open>
  Claim C1, as the code has it: when a processing run raises an error, no bundle is
  exposed. In every reachable state in which a run is waiting for its processing call,
  \<open>outputData\<close> is already null (the run cleared it when it started, line 86), and it is
  still null after the failing call has been handled. The bundle of an earlier run is
  therefore discarded, not kept.
\<close>

theorem failed_run_exposes_no_bundle:
  assumes "reachable w" and "i < length (pending w)" and "pending w ! i = RunCall a b"
    and "runFailed r"
  shows "outputData (app w) = None \<and> outputData (app (step (ProcessDone i r now) w)) = None"
proof -
  have "0 < runsInFlight (pending w)"
    using assms(2,3) runsInFlight_pos [of i "pending w"] by simp
  moreover have "runInv w"
    using assms(1) by (rule reachable_runInv)
  ultimately have none: "outputData (app w) = None"
    by (auto simp: runInv_def split: if_splits)
  then show ?thesis
    using assms(2,3,4) by (simp add: run_resume_failed)
qed

text \<open>The theorem at the session that loads both files, runs once and runs again.\<close>

theorem failed_run_exposes_no_bundle_witness:
  "outputData (app (exec (loadBoth @ runOk @ [ClickRun clock, TimerFires 0]) initialSystem)) = None
   \<and> outputData (app (step (ProcessDone 0 (ProcessThrew (ErrorObject ''empty input'')) clock)
        (exec (loadBoth @ runOk @ [ClickRun clock, TimerFires 0]) initialSystem))) = None"
proof -
  let ?w = "exec (loadBoth @ runOk @ [ClickRun clock, TimerFires 0]) initialSystem"
  have r: "reachable ?w"
    by (rule reachable_exec) (rule reachable_init)
  have p: "pending ?w = [RunCall inputRows resultsRows]"
    by (simp add: scenario_defs handler_defs)
  have "0 < length (pending ?w)" "pending ?w ! 0 = RunCall inputRows resultsRows"
    by (simp_all add: p)
  then show ?thesis
    using failed_run_exposes_no_bundle [OF r, of 0 inputRows resultsRows
        "ProcessThrew (ErrorObject ''empty input'')" clock]
    by simp
qed

text \<open>
  Claim C1 as stated fails: after a successful run the state holds \<open>sampleOutput\<close>; a
  second run whose processing call throws leaves \<open>outputData\<close> null, not \<open>sampleOutput\<close>.
\<close>

theorem failed_run_discards_bundle_counterexample:
  "reachable (exec (loadBoth @ runOk) initialSystem)
   \<and> outputData (app (exec (loadBoth @ runOk) initialSystem)) = Some sampleOutput
   \<and> outputData (app (exec runBad (exec (loadBoth @ runOk) initialSystem))) = None"
proof -
  have "reachable (exec (loadBoth @ runOk) initialSystem)"
    by (rule reachable_exec) (rule reachable_init)
  moreover have "outputData (app (exec (loadBoth @ runOk) initialSystem)) = Some sampleOutput"
    by (simp add: scenario_defs handler_defs)
  moreover have "outputData (app (exec runBad (exec (loadBoth @ runOk) initialSystem))) = None"
    by (simp add: scenario_defs handler_defs)
  ultimately show ?thesis by simp
qed

section \<open>When a run may start\<close>

text \<open>
  Claim C3: a run can proceed only when both slots are \<open>valid\<close>. Whatever the state and
  whatever happens next, if the number of suspended runs grows, then both statuses were
  \<open>valid\<close> in the state before: the only event that starts a run is a click on the run
  button, which is disabled unless \<open>canRun\<close> holds.
\<close>

theorem run_starts_only_when_both_valid:
  assumes "runsInFlight (pending w) < runsInFlight (pending (step e w))"
  shows "fileStatus (app w) Input = Valid \<and> fileStatus (app w) Results = Valid"
proof (cases e)
  case (ClickRun now)
  then show ?thesis using assms
    by (auto simp: runButtonEnabled_def canRun_def split: if_splits)
next
  case (IngestDone i r now)
  then show ?thesis using assms
    by (auto simp: runsInFlight_remove_nth split: if_splits task.splits)
next
  case (ProcessDone i r now)
  then show ?thesis using assms
    by (auto simp: runsInFlight_remove_nth split: if_splits task.splits)
next
  case (TimerFires i)
  then show ?thesis using assms
    by (auto simp: runsInFlight_update split: if_splits task.splits)
qed (use assms in \<open>auto simp: runsInFlight_snoc split: if_splits\<close>)

text \<open>With both files loaded, the click starts a run.\<close>

theorem run_starts_only_when_both_valid_witness:
  "runsInFlight (pending (exec loadBoth initialSystem))
     < runsInFlight (pending (step (ClickRun clock) (exec loadBoth initialSystem)))
   \<and> fileStatus (app (exec loadBoth initialSystem)) Input = Valid
   \<and> fileStatus (app (exec loadBoth initialSystem)) Results = Valid"
proof -
  have h: "runsInFlight (pending (exec loadBoth initialSystem))
     < runsInFlight (pending (step (ClickRun clock) (exec loadBoth initialSystem)))"
    by (simp add: scenario_defs handler_defs runsInFlight_def)
  show ?thesis
    using h run_starts_only_when_both_valid [OF h] by simp
qed

text \<open>
  The condition is the button's. The guard of line 80 reads the cache, which a new file
  selection leaves in place while its slot is \<open>loading\<close>: there the handler on its own
  would go on.
\<close>

lemma guard_of_handler_reads_cache:
  "fileStatus (app (exec (loadBoth @ [SelectFile Input resultsFile]) initialSystem)) Input = Loading
   \<and> runGuard (app (exec (loadBoth @ [SelectFile Input resultsFile]) initialSystem))
   \<and> \<not> runButtonEnabled (app (exec (loadBoth @ [SelectFile Input resultsFile]) initialSystem))"
  by (simp add: scenario_defs handler_defs)

text \<open>
  Claim C4: while a run is in flight, invoking the run again starts no second run. In
  every reachable state at most one run is suspended, the processing flag is set exactly
  when one is, and with the flag set a click on the run button changes nothing.
\<close>

theorem no_second_run_while_processing:
  assumes "reachable w"
  shows "runsInFlight (pending w) \<le> 1
         \<and> (isProcessing (app w) = (runsInFlight (pending w) = 1))
         \<and> (isProcessing (app w) \<longrightarrow> step (ClickRun now) w = w)"
proof -
  have "runInv w"
    using assms by (rule reachable_runInv)
  then show ?thesis
    by (auto simp: runInv_def runButtonEnabled_def split: if_splits)
qed

text \<open>A second click right after the first.\<close>

theorem no_second_run_while_processing_witness:
  "runsInFlight (pending (exec (loadBoth @ [ClickRun clock]) initialSystem)) \<le> 1
   \<and> isProcessing (app (exec (loadBoth @ [ClickRun clock]) initialSystem))
   \<and> step (ClickRun clock) (exec (loadBoth @ [ClickRun clock]) initialSystem)
       = exec (loadBoth @ [ClickRun clock]) initialSystem"
proof -
  let ?w = "exec (loadBoth @ [ClickRun clock]) initialSystem"
  have r: "reachable ?w"
    by (rule reachable_exec) (rule reachable_init)
  have p: "isProcessing (app ?w)"
    by (simp add: scenario_defs handler_defs)
  show ?thesis
    using no_second_run_while_processing [OF r, of clock] p by simp
qed

section \<open>Reset\<close>

text \<open>
  Claim C5: after \<open>handleReset\<close>, from any state, both slots are \<open>waiting\<close>, both cache
  slots are null and the bundle is null.
\<close>

theorem reset_returns_to_waiting:
  "fileStatus (handleReset s) Input = Waiting
   \<and> fileStatus (handleReset s) Results = Waiting
   \<and> fileDataCache (handleReset s) Input = JNull
   \<and> fileDataCache (handleReset s) Results = JNull
   \<and> outputData (handleReset s) = None"
  by (simp add: handleReset_def)

section \<open>The ingestion state machine\<close>

lemma leavesSlot_status:
  "leavesSlot ty e w \<Longrightarrow> fileStatus (app (step e w)) ty = fileStatus (app w) ty"
proof (cases e)
  case (SelectFile ty' f)
  assume "leavesSlot ty e w" then show ?thesis
    by (simp add: SelectFile handleFileChange_begin_def)
next
  case (IngestDone i r now)
  assume "leavesSlot ty e w" then show ?thesis
    by (auto simp add: IngestDone resume_fileStatus split: task.splits if_splits)
next
  case (ClickRun now)
  then show ?thesis
    by (simp add: handleRunTransformation_begin_def addLog_def)
next
  case (ProcessDone i r now)
  then show ?thesis
    by (simp add: run_resume_fields split: task.splits)
next
  case (TimerFires i)
  then show ?thesis
    by (simp split: task.splits)
next
  case (SinkLog m lt ts)
  then show ?thesis
    by (simp add: addLog_def)
next
  case (ClickDownload okey x now)
  then show ?thesis
    by (simp add: download_fields)
next
  case ClickReset
  assume "leavesSlot ty e w" then show ?thesis
    by (simp add: ClickReset)
qed

lemma undisturbed_status:
  "undisturbed ty es w \<Longrightarrow> fileStatus (app (exec es w)) ty = fileStatus (app w) ty"
  by (induction es arbitrary: w) (simp_all add: leavesSlot_status)

text \<open>
  Claim C6, as the code has it: a file selection sets its slot to \<open>loading\<close> at once;
  as long as no other selection on that slot completes and no reset happens, the slot
  stays \<open>loading\<close>; the completion of an ingestion of that slot then sets it to \<open>valid\<close>
  when validation succeeded and to \<open>invalid\<close> otherwise (failed validation or a thrown
  error).
\<close>

theorem selection_passes_through_loading:
  assumes "undisturbed ty es (step (SelectFile ty file) w)"
    and "w' = exec es (step (SelectFile ty file) w)"
    and "j < length (pending w')" and "pending w' ! j = IngestTask file' ty"
  shows "fileStatus (app (step (SelectFile ty file) w)) ty = Loading
         \<and> fileStatus (app w') ty = Loading
         \<and> fileStatus (app (step (IngestDone j r now) w')) ty
             = (if ingestValid r then Valid else Invalid)"
proof -
  have a: "fileStatus (app (step (SelectFile ty file) w)) ty = Loading"
    by (simp add: handleFileChange_begin_def)
  have b: "fileStatus (app w') ty = Loading"
    using assms(1,2) a by (simp add: undisturbed_status)
  have c: "fileStatus (app (step (IngestDone j r now) w')) ty
             = (if ingestValid r then Valid else Invalid)"
    using assms(3,4) by (simp add: resume_fileStatus)
  show ?thesis
    using a b c by simp
qed

text \<open>
  A selection on the input slot, then a selection on the other slot and a log entry of
  the transformer, then the completion of the first with a failed validation.
\<close>

theorem selection_passes_through_loading_witness:
  "fileStatus (app (step (SelectFile Input inputFile) initialSystem)) Input = Loading
   \<and> fileStatus (app (exec [SelectFile Results resultsFile, SinkLog ''reading'' Info ''t'']
        (step (SelectFile Input inputFile) initialSystem))) Input = Loading
   \<and> fileStatus (app (step (IngestDone 0 (IngestReturned JNull failed) clock)
        (exec [SelectFile Results resultsFile, SinkLog ''reading'' Info ''t'']
          (step (SelectFile Input inputFile) initialSystem)))) Input = Invalid"
proof -
  let ?es = "[SelectFile Results resultsFile, SinkLog ''reading'' Info ''t'']"
  let ?w' = "exec ?es (step (SelectFile Input inputFile) initialSystem)"
  have u: "undisturbed Input ?es (step (SelectFile Input inputFile) initialSystem)"
    by simp
  have j: "0 < length (pending ?w')" "pending ?w' ! 0 = IngestTask inputFile Input"
    by (simp_all add: scenario_defs handler_defs)
  have v: "\<not> ingestValid (IngestReturned JNull failed)"
    by (simp add: failed_def)
  show ?thesis
    using selection_passes_through_loading [OF u refl j, of "IngestReturned JNull failed" clock] v
    by simp
qed

text \<open>
  Claim C6 as stated fails when two selections on one slot overlap: both set the slot to
  \<open>loading\<close>, the first completion sets it to \<open>valid\<close>, and the second completion moves
  it from \<open>valid\<close> to \<open>invalid\<close> in one step.
\<close>

theorem overlapping_selections_counterexample:
  "reachable (exec [SelectFile Input inputFile, SelectFile Input resultsFile,
                    IngestDone 0 (IngestReturned inputRows passed) clock] initialSystem)
   \<and> fileStatus (app (exec [SelectFile Input inputFile, SelectFile Input resultsFile,
                    IngestDone 0 (IngestReturned inputRows passed) clock] initialSystem)) Input = Valid
   \<and> fileStatus (app (step (IngestDone 0 (IngestReturned JNull failed) clock)
        (exec [SelectFile Input inputFile, SelectFile Input resultsFile,
                    IngestDone 0 (IngestReturned inputRows passed) clock] initialSystem))) Input = Invalid"
proof -
  let ?w = "exec [SelectFile Input inputFile, SelectFile Input resultsFile,
                    IngestDone 0 (IngestReturned inputRows passed) clock] initialSystem"
  have "reachable ?w"
    by (rule reachable_exec) (rule reachable_init)
  moreover have "fileStatus (app ?w) Input = Valid"
    by (simp add: scenario_defs handler_defs)
  moreover have "fileStatus (app (step (IngestDone 0 (IngestReturned JNull failed) clock) ?w)) Input = Invalid"
    by (simp add: scenario_defs handler_defs logEach_eq)
  ultimately show ?thesis by simp
qed

text \<open>
  Claim C7: an ingestion of one slot, at its start and at its completion with any outcome
  (valid, invalid or thrown), leaves the status, the error message, the selected file
  and the cached data of the other slot as they were.
\<close>

theorem ingestion_leaves_other_slot:
  assumes "ty' \<noteq> ty"
  shows "fileStatus (handleFileChange_begin file ty s) ty' = fileStatus s ty'
         \<and> fileErrors (handleFileChange_begin file ty s) ty' = fileErrors s ty'
         \<and> files (handleFileChange_begin file ty s) ty' = files s ty'
         \<and> fileDataCache (handleFileChange_begin file ty s) ty' = fileDataCache s ty'
         \<and> fileStatus (handleFileChange_resume file ty r now s) ty' = fileStatus s ty'
         \<and> fileErrors (handleFileChange_resume file ty r now s) ty' = fileErrors s ty'
         \<and> files (handleFileChange_resume file ty r now s) ty' = files s ty'
         \<and> fileDataCache (handleFileChange_resume file ty r now s) ty' = fileDataCache s ty'"
  using assms
  by (simp add: handleFileChange_begin_def resume_fileStatus resume_errors_other
      resume_other_fields resume_cache_other)

text \<open>A thrown error on the input slot while the results slot is valid.\<close>

theorem ingestion_leaves_other_slot_witness:
  "Results \<noteq> Input
   \<and> fileStatus (handleFileChange_resume inputFile Input (IngestThrew (ErrorObject ''not a workbook''))
        clock (handleFileChange_begin inputFile Input (app (exec loadBoth initialSystem)))) Results = Valid
   \<and> fileDataCache (handleFileChange_resume inputFile Input (IngestThrew (ErrorObject ''not a workbook''))
        clock (handleFileChange_begin inputFile Input (app (exec loadBoth initialSystem)))) Results
       = resultsRows
   \<and> fileErrors (handleFileChange_resume inputFile Input (IngestThrew (ErrorObject ''not a workbook''))
        clock (handleFileChange_begin inputFile Input (app (exec loadBoth initialSystem)))) Results = None
   \<and> files (handleFileChange_resume inputFile Input (IngestThrew (ErrorObject ''not a workbook''))
        clock (handleFileChange_begin inputFile Input (app (exec loadBoth initialSystem)))) Results
       = Some resultsFile"
proof -
  let ?s = "app (exec loadBoth initialSystem)"
  have n: "Results \<noteq> Input" by simp
  have s: "fileStatus ?s Results = Valid" "fileDataCache ?s Results = resultsRows"
    "fileErrors ?s Results = None" "files ?s Results = Some resultsFile"
    by (simp_all add: scenario_defs handler_defs)
  have b: "fileStatus (handleFileChange_begin inputFile Input ?s) Results = fileStatus ?s Results"
    "fileDataCache (handleFileChange_begin inputFile Input ?s) Results = fileDataCache ?s Results"
    "fileErrors (handleFileChange_begin inputFile Input ?s) Results = fileErrors ?s Results"
    "files (handleFileChange_begin inputFile Input ?s) Results = files ?s Results"
    using ingestion_leaves_other_slot [OF n, of inputFile ?s] by simp_all
  show ?thesis
    using ingestion_leaves_other_slot [OF n, of inputFile
        "handleFileChange_begin inputFile Input ?s" "IngestThrew (ErrorObject ''not a workbook'')" clock]
      b s
    by simp
qed

section \<open>The log\<close>

text \<open>
  Claim C8, as the code has it: when validation fails, every error of the validation
  result is appended to the log, in order, as an \<open>error\<close> entry; and whatever happens
  next, other than a reset or a click on the run button (both clear the log), the log
  before is a prefix of the log after.
\<close>

theorem log_is_append_only_between_clears:
  assumes "\<not> isValid validation" and "\<not> clearsLog e"
  shows "logs (handleFileChange_resume file ty (IngestReturned jsonData validation) now s)
           = logs s @ errorEntries (errors validation) now 0
         \<and> prefix (logs (app w)) (logs (app (step e w)))"
proof -
  have a: "logs (handleFileChange_resume file ty (IngestReturned jsonData validation) now s)
           = logs s @ errorEntries (errors validation) now 0"
    using assms(1) by (simp add: logEach_eq)
  have l: "prefix (logs s') (logs (handleFileChange_resume f t r n s'))" for f t r n s'
    by (cases r) (simp_all add: logEach_eq addLog_def Let_def)
  have l2: "prefix (logs s') (logs (handleRunTransformation_resume r n s'))" for r n s'
    by (cases "(r, n, s')" rule: handleRunTransformation_resume.cases; simp add: addLog_def)
  have b: "prefix (logs (app w)) (logs (app (step e w)))"
    using assms(2)
    by (cases e) (auto simp: l l2 download_logs addLog_def handleFileChange_begin_def split: task.splits)
  show ?thesis using a b by simp
qed

text \<open>A failed validation of the input file, and a file selection as the next event.\<close>

theorem log_is_append_only_between_clears_witness:
  "\<not> isValid failed \<and> \<not> clearsLog (SelectFile Results resultsFile)
   \<and> logs (handleFileChange_resume inputFile Input (IngestReturned JNull failed) clock initialState)
       = [\<lparr> message = ''missing required column: id'', type = Error, timestamp = clock 0 \<rparr>,
          \<lparr> message = ''Row 2: empty key'', type = Error, timestamp = clock 1 \<rparr>]
   \<and> prefix (logs (app (exec loadBoth initialSystem)))
        (logs (app (step (SelectFile Results resultsFile) (exec loadBoth initialSystem))))"
proof -
  have v: "\<not> isValid failed"
    by (simp add: failed_def)
  have c: "\<not> clearsLog (SelectFile Results resultsFile)"
    by simp
  have e: "errorEntries (errors failed) clock 0
      = [\<lparr> message = ''missing required column: id'', type = Error, timestamp = clock 0 \<rparr>,
         \<lparr> message = ''Row 2: empty key'', type = Error, timestamp = clock 1 \<rparr>]"
    by (simp add: errorEntries_def failed_def)
  have i: "logs initialState = []"
    by (simp add: initialState_def)
  show ?thesis
    using log_is_append_only_between_clears [OF v c, of inputFile Input JNull clock initialState
        "exec loadBoth initialSystem"] v c
    by (simp only: e i append_Nil simp_thms)
qed

text \<open>
  Claim C8 as stated fails: a click on the run button is not a reset, and it removes the
  two entries that loading the files had appended (\<open>setLogs([])\<close>, line 87).
\<close>

theorem run_clears_log_counterexample:
  "reachable (exec loadBoth initialSystem)
   \<and> logs (app (exec loadBoth initialSystem))
       = [\<lparr> message = [CHR 0x27] @ ''Corrected_Input_Piemonte.xlsx'' @ [CHR 0x27]
                         @ '' loaded and validated successfully.'',
            type = Success, timestamp = clock 0 \<rparr>,
          \<lparr> message = [CHR 0x27] @ ''Campaign_Results.xlsx'' @ [CHR 0x27]
                         @ '' loaded and validated successfully.'',
            type = Success, timestamp = clock 0 \<rparr>]
   \<and> logs (app (step (ClickRun clock) (exec loadBoth initialSystem)))
       = [\<lparr> message = ''Starting transformation process...'', type = Info, timestamp = clock 0 \<rparr>]"
proof -
  have "reachable (exec loadBoth initialSystem)"
    by (rule reachable_exec) (rule reachable_init)
  moreover have "logs (app (exec loadBoth initialSystem))
       = [\<lparr> message = [CHR 0x27] @ ''Corrected_Input_Piemonte.xlsx'' @ [CHR 0x27]
                         @ '' loaded and validated successfully.'',
            type = Success, timestamp = clock 0 \<rparr>,
          \<lparr> message = [CHR 0x27] @ ''Campaign_Results.xlsx'' @ [CHR 0x27]
                         @ '' loaded and validated successfully.'',
            type = Success, timestamp = clock 0 \<rparr>]"
    by (simp add: scenario_defs handler_defs)
  moreover have "logs (app (step (ClickRun clock) (exec loadBoth initialSystem)))
       = [\<lparr> message = ''Starting transformation process...'', type = Info, timestamp = clock 0 \<rparr>]"
    by (simp add: scenario_defs handler_defs)
  ultimately show ?thesis by simp
qed

section \<open>Download\<close>

text \<open>
  Claim C10: for every category key, when the bundle is absent or the category is empty,
  \<open>handleDownload\<close> makes no call on the encoder or on \<open>saveAs\<close> and appends exactly one
  \<open>error\<close> entry to the log; nothing else in the state changes.
\<close>

theorem download_without_data_only_logs:
  assumes "noData okey s"
  shows "handleDownload okey fileName x now s
           = (s\<lparr> logs := logs s @ [\<lparr> message = ''No data available to download for '' @ fileName @ ''.'',
                                     type = Error, timestamp = now 0 \<rparr>] \<rparr>, [])"
  using assms by (simp add: noData_def handleDownload_def addLog_def split: option.splits)

text \<open>The bundle of the sample run has no retrieved records.\<close>

theorem download_without_data_only_logs_witness:
  "noData KRetrieved (app (exec (loadBoth @ runOk) initialSystem))
   \<and> handleDownload KRetrieved ''2_Retrieved_Data.xlsx'' ExportOk clock
        (app (exec (loadBoth @ runOk) initialSystem))
       = ((app (exec (loadBoth @ runOk) initialSystem))
            \<lparr> logs := logs (app (exec (loadBoth @ runOk) initialSystem))
                 @ [\<lparr> message = ''No data available to download for ''
                                   @ ''2_Retrieved_Data.xlsx'' @ ''.'',
                      type = Error, timestamp = clock 0 \<rparr>] \<rparr>, [])"
proof -
  have n: "noData KRetrieved (app (exec (loadBoth @ runOk) initialSystem))"
    by (simp add: noData_def scenario_defs handler_defs)
  show ?thesis
    using download_without_data_only_logs [OF n, of "''2_Retrieved_Data.xlsx''" ExportOk clock] n
    by simp
qed

section \<open>The bundle and the dataset pair\<close>









lemma sequential_reachable: "sequential w \<Longrightarrow> reachable w"
  by (induction rule: sequential.induct)
     (simp_all add: reachable_init reachable_exec reachable_step del: step.simps)





section \<open>The partition of the keys\<close>























text \<open>The scenario of the spec: A1 is contacted, A2 is scouted, nothing is retrieved.\<close>

lemma classify_sample:
  "classify (statusIs ''retrieved'') (statusIs ''contacted'') (reconcile sampleInputs sampleResults)
     = \<lparr> scoutedSeq = [\<lparr> recordKey = ''A2'', fromInput = [(''area'', JNum 5)], fromResults = [] \<rparr>],
         retrievedSeq = [],
         contactedSeq = [\<lparr> recordKey = ''A1'', fromInput = [(''area'', JNum 10)],
                           fromResults = [(''status'', JStr ''contacted'')] \<rparr>] \<rparr>"
  by (simp add: classify_def reconcile_def categoryOf_def contractViolation_def rules_def
      mergeRecord_def statusIs_def sampleInputs_def sampleResults_def)

end
